theory Spec2Isabelle
  imports Main "HOL-Library.AList" "HOL-Library.List_Lexorder"
begin

section \<open>Data model\<close>

text \<open>
  JavaScript text (user input, document ids, stored string values, error messages) is a
  list of Unicode code points. Field names and the collection name are program
  identifiers and are kept as HOL strings; the one letter outside ASCII, the n with tilde
  of the field name of the year, is \<open>CHR 0xF1\<close>.
\<close>

type_synonym ustring = "nat list"

definition lit :: "string \<Rightarrow> ustring" where
  "lit s = map of_char s"

datatype direction = Asc | Desc

text \<open>
  A field value is a string or a number. A number is kept symbolic as the text handed to
  JavaScript's \<open>Number(...)\<close>: no property below looks inside a number.
\<close>

datatype fvalue = Str ustring | Number ustring

text \<open>The three comparison operators the component passes to \<open>where\<close>: ==, >= and <=.\<close>

datatype whereOp = Eq | Ge | Le

text \<open>A \<open>DocumentSnapshot\<close>: the document id and the fields \<open>data()\<close> returns, in order.\<close>

record snapshot =
  snap_id :: ustring
  snap_data :: "(string \<times> fvalue) list"

datatype queryConstraint =
    Where string whereOp fvalue
  | OrderBy string direction
  | Limit int
  | StartAfter snapshot

text \<open>\<open>query(colRef, ...constraints)\<close>: the collection name and the constraints in order.\<close>

type_synonym query = "string \<times> queryConstraint list"

text \<open>What a rejected promise or a \<open>throw\<close> carries: an \<open>Error\<close> instance with its message, or any other value.\<close>

datatype thrown = ErrorInstance ustring | OtherValue

text \<open>
  The document store, the external collaborator behind \<open>getDocs\<close>: a query is answered
  with the documents of the result snapshot, or the promise is rejected.
\<close>

type_synonym store = "query \<Rightarrow> thrown + snapshot list"

text \<open>A row of the table, \<open>WithId<Decision>\<close>: an object, as its properties in order.\<close>

type_synonym row = "(string \<times> fvalue) list"

section \<open>FirestoreService.getPaged\<close>

record pagedOptions =
  opt_orderByField :: "string option"
  opt_order :: "direction option"
  opt_startAfterSnapshot :: "snapshot option"
  opt_constraints :: "queryConstraint list option"

text \<open>
  \<open>{ id: d.id, ...(d.data() as T) }\<close>: the property \<open>id\<close> first, then every field of the
  document; a field of the document that is itself called \<open>id\<close> replaces the value.
\<close>

definition withId :: "snapshot \<Rightarrow> row" where
  "withId d = fold (\<lambda>(k, v) obj. AList.update k v obj) (snap_data d) [(''id'', Str (snap_id d))]"

text \<open>The constraint list \<open>getPaged\<close> assembles before it calls \<open>getDocs\<close>.\<close>

definition pagedQuery :: "string \<Rightarrow> int \<Rightarrow> pagedOptions option \<Rightarrow> query" where
  "pagedQuery collectionName pageSize options =
     (collectionName,
      (case options of
         Some opts \<Rightarrow>
           (case opt_constraints opts of
              Some cs \<Rightarrow> (if length cs \<noteq> 0 then cs else [])
            | None \<Rightarrow> [])
       | None \<Rightarrow> [])
      @ (case options of
           Some opts \<Rightarrow>
             (case opt_orderByField opts of
                Some f \<Rightarrow>
                  (if f \<noteq> [] then
                     [OrderBy f (case opt_order opts of Some d \<Rightarrow> d | None \<Rightarrow> Asc)]
                   else [])
              | None \<Rightarrow> [])
         | None \<Rightarrow> [])
      @ [Limit pageSize]
      @ (case options of
           Some opts \<Rightarrow>
             (case opt_startAfterSnapshot opts of Some s \<Rightarrow> [StartAfter s] | None \<Rightarrow> [])
         | None \<Rightarrow> []))"

definition getPaged ::
  "store \<Rightarrow> string \<Rightarrow> int \<Rightarrow> pagedOptions option \<Rightarrow> thrown + (row list \<times> snapshot option)" where
  "getPaged st collectionName pageSize options =
     (case st (pagedQuery collectionName pageSize options) of
        Inl e \<Rightarrow> Inl e
      | Inr docs \<Rightarrow>
          (let data = map withId docs;
               lastDoc = (if length docs \<noteq> 0 then Some (docs ! (length docs - 1)) else None);
               nextCursor =
                 (case lastDoc of
                    Some d \<Rightarrow> (if int (length data) = pageSize then Some d else None)
                  | None \<Rightarrow> None)
           in Inr (data, nextCursor)))"

section \<open>The Table component (src/components/Table.tsx)\<close>

definition COLLECTION :: string where
  "COLLECTION = ''sentencias''"

definition PAGE_SIZE :: int where
  "PAGE_SIZE = 50"

text \<open>The field name of the year, \<open>a\<close>, n with tilde, \<open>o\<close>.\<close>

definition anio :: string where
  "anio = [CHR ''a'', CHR 0xF1, CHR ''o'']"

text \<open>The string of the one code point U+F8FF, appended to the prefix for the upper bound of the range.\<close>

definition sentinel :: ustring where
  "sentinel = [0xF8FF]"

datatype filterType = Year | Sala | Exp

text \<open>The state hooks of the component; \<open>null\<close> is \<open>None\<close>.\<close>

record table =
  rows :: "row list"
  orderByField :: string
  order :: direction
  activeFilterType :: "filterType option"
  year :: ustring
  salaNum :: ustring
  expPrefix :: ustring
  cursorStack :: "snapshot list"
  nextCursor :: "snapshot option"
  loading :: bool
  err :: "ustring option"

definition initial :: table where
  "initial = \<lparr> rows = [], orderByField = ''sala_num'', order = Desc, activeFilterType = None,
     year = [], salaNum = [], expPrefix = [], cursorStack = [], nextCursor = None,
     loading = False, err = None \<rparr>"

text \<open>The memoised predicate list: only the active filter, and only when its input is not empty.\<close>

definition constraints :: "table \<Rightarrow> queryConstraint list" where
  "constraints st =
     (if activeFilterType st = Some Year \<and> year st \<noteq> [] then
        [Where anio Eq (Str (year st))]
      else if activeFilterType st = Some Sala \<and> salaNum st \<noteq> [] then
        [Where ''sala_num'' Eq (Number (salaNum st))]
      else if activeFilterType st = Some Exp \<and> expPrefix st \<noteq> [] then
        [Where ''expediente'' Ge (Str (expPrefix st)),
         Where ''expediente'' Le (Str (expPrefix st @ sentinel))]
      else [])"

text \<open>The options object \<open>fetchPage\<close> hands to \<open>getPaged\<close>, with the order-by field it computes first.\<close>

definition fetchOptions :: "table \<Rightarrow> snapshot option \<Rightarrow> pagedOptions" where
  "fetchOptions st startAfterSnapshot =
     (let obField =
            (if activeFilterType st = Some Sala then ''sala_num''
             else if activeFilterType st = Some Year then anio
             else if activeFilterType st = Some Exp then ''expediente''
             else orderByField st)
      in \<lparr> opt_orderByField = Some obField, opt_order = Some (order st),
           opt_startAfterSnapshot = startAfterSnapshot,
           opt_constraints = Some (constraints st) \<rparr>)"

text \<open>The query a call of \<open>fetchPage\<close> sends to the store.\<close>

definition fetchQuery :: "table \<Rightarrow> snapshot option \<Rightarrow> query" where
  "fetchQuery st startAfterSnapshot =
     pagedQuery COLLECTION PAGE_SIZE (Some (fetchOptions st startAfterSnapshot))"

text \<open>
  \<open>fetchPage\<close>, run to completion: the state after the \<open>finally\<close> block. A rejected
  \<open>getPaged\<close> is the \<open>catch\<close> branch.
\<close>

definition fetchPage :: "store \<Rightarrow> bool \<Rightarrow> snapshot option \<Rightarrow> table \<Rightarrow> table" where
  "fetchPage db reset startAfterSnapshot st =
     (let st1 = st\<lparr> loading := True, err := None \<rparr> in
      case getPaged db COLLECTION PAGE_SIZE (Some (fetchOptions st startAfterSnapshot)) of
        Inr (data, nc) \<Rightarrow>
          (let st2 = st1\<lparr> rows := data, nextCursor := nc \<rparr>;
               st3 = (if reset then
                        st2\<lparr> cursorStack :=
                              (case startAfterSnapshot of Some s \<Rightarrow> [s] | None \<Rightarrow> []) \<rparr>
                      else st2)
           in st3\<lparr> loading := False \<rparr>)
      | Inl e \<Rightarrow>
          (let message = (case e of ErrorInstance m \<Rightarrow> m | OtherValue \<Rightarrow> lit ''Error cargando datos'')
           in st1\<lparr> err := Some message, loading := False \<rparr>))"

definition onNext :: "store \<Rightarrow> table \<Rightarrow> table" where
  "onNext db st =
     (case nextCursor st of
        None \<Rightarrow> st
      | Some c \<Rightarrow> fetchPage db False (Some c) (st\<lparr> cursorStack := cursorStack st @ [c] \<rparr>))"

definition onPrev :: "store \<Rightarrow> table \<Rightarrow> table" where
  "onPrev db st =
     (let s = cursorStack st in
      if length s = 0 then st
      else
        (let newStack = butlast s;
             newStartAfter = (if newStack = [] then None else Some (last newStack))
         in fetchPage db False newStartAfter (st\<lparr> cursorStack := newStack \<rparr>)))"

definition canPrev :: "table \<Rightarrow> bool" where
  "canPrev st = (length (cursorStack st) > 0)"

definition canNext :: "table \<Rightarrow> bool" where
  "canNext st = (nextCursor st \<noteq> None)"

text \<open>The badge of the active filter is drawn when the active filter has a value.\<close>

definition activeFilter :: "table \<Rightarrow> (string \<times> ustring) option" where
  "activeFilter st =
     (if activeFilterType st = Some Year \<and> year st \<noteq> [] then Some ([CHR ''A'', CHR 0xF1, CHR ''o''], year st)
      else if activeFilterType st = Some Sala \<and> salaNum st \<noteq> [] then Some (''Sala'', salaNum st)
      else if activeFilterType st = Some Exp \<and> expPrefix st \<noteq> [] then
        Some (''Expediente'', expPrefix st)
      else None)"

subsection \<open>Event handlers and the effect\<close>

text \<open>
  The controls of the component: the four filter buttons, the badge's clear button, the
  three inputs, the direction select, and the buttons Aplicar, Anterior and Siguiente.
\<close>

datatype event =
    ClickAnio
  | ClickSala
  | ClickExpediente
  | ClickSinFiltro
  | ClickBadge
  | ChangeYear ustring
  | ChangeSalaNum ustring
  | ChangeExpPrefix ustring
  | ChangeOrder direction
  | ClickAplicar
  | ClickAnterior
  | ClickSiguiente

text \<open>
  A control can be used when it is drawn and not disabled: each input is drawn only under
  its own filter type, the badge only for an active filter with a value.
\<close>

fun rendered :: "event \<Rightarrow> table \<Rightarrow> bool" where
  "rendered ClickBadge st = (activeFilter st \<noteq> None)"
| "rendered (ChangeYear v) st = (activeFilterType st = Some Year)"
| "rendered (ChangeSalaNum v) st = (activeFilterType st = Some Sala)"
| "rendered (ChangeExpPrefix v) st = (activeFilterType st = Some Exp)"
| "rendered ClickAplicar st = (\<not> loading st)"
| "rendered ClickAnterior st = (\<not> (\<not> canPrev st \<or> loading st))"
| "rendered ClickSiguiente st = (\<not> (\<not> canNext st \<or> loading st))"
| "rendered _ st = True"

fun handler :: "store \<Rightarrow> event \<Rightarrow> table \<Rightarrow> table" where
  "handler db ClickAnio st = st\<lparr> activeFilterType := Some Year, salaNum := [], expPrefix := [] \<rparr>"
| "handler db ClickSala st = st\<lparr> activeFilterType := Some Sala, year := [], expPrefix := [] \<rparr>"
| "handler db ClickExpediente st = st\<lparr> activeFilterType := Some Exp, year := [], salaNum := [] \<rparr>"
| "handler db ClickSinFiltro st =
     st\<lparr> activeFilterType := None, year := [], salaNum := [], expPrefix := [] \<rparr>"
| "handler db ClickBadge st =
     st\<lparr> activeFilterType := None, year := [], salaNum := [], expPrefix := [] \<rparr>"
| "handler db (ChangeYear v) st = st\<lparr> year := v \<rparr>"
| "handler db (ChangeSalaNum v) st = st\<lparr> salaNum := v \<rparr>"
| "handler db (ChangeExpPrefix v) st = st\<lparr> expPrefix := v \<rparr>"
| "handler db (ChangeOrder d) st = st\<lparr> order := d \<rparr>"
| "handler db ClickAplicar st = fetchPage db True None st"
| "handler db ClickAnterior st = onPrev db st"
| "handler db ClickSiguiente st = onNext db st"

text \<open>
  The dependencies of the effect, \<open>[orderByField, order, constraints]\<close>: the memoised
  \<open>constraints\<close> is a new array exactly when one of its own dependencies changes.
\<close>

definition effectDeps ::
  "table \<Rightarrow> string \<times> direction \<times> filterType option \<times> ustring \<times> ustring \<times> ustring" where
  "effectDeps st =
     (orderByField st, order st, activeFilterType st, year st, salaNum st, expPrefix st)"

text \<open>One event: the handler, then the effect \<open>fetchPage(true)\<close> when a dependency changed.\<close>

definition dispatch :: "store \<Rightarrow> event \<Rightarrow> table \<Rightarrow> table" where
  "dispatch db ev st =
     (let st' = handler db ev st
      in if effectDeps st' \<noteq> effectDeps st then fetchPage db True None st' else st')"

text \<open>
  The states the component can be in: the effect runs once on mount, then events follow,
  each against whatever the store answers at that moment.
\<close>

inductive reachable :: "table \<Rightarrow> bool" where
  mount: "reachable (fetchPage db True None initial)"
| event: "reachable st \<Longrightarrow> rendered ev st \<Longrightarrow> reachable (dispatch db ev st)"

definition filterInputs :: "table \<Rightarrow> ustring list" where
  "filterInputs st = [year st, salaNum st, expPrefix st]"

definition atMostOneNonEmpty :: "ustring list \<Rightarrow> bool" where
  "atMostOneNonEmpty xs = (length (filter (\<lambda>x. x \<noteq> []) xs) \<le> 1)"

section \<open>The Table component with combinable filters (src/unnamed/part_000)\<close>

text \<open>
  This file declares the same names as Table.tsx; its definitions carry the suffix \<open>_m\<close>.
  Its filters are independent of each other, a month filter is added, and the order-by
  field is a ref that is never assigned.
\<close>

definition MONTHS :: "ustring list" where
  "MONTHS = map lit [''Enero'', ''Febrero'', ''Marzo'', ''Abril'', ''Mayo'', ''Junio'', ''Julio'',
     ''Agosto'', ''Septiembre'', ''Octubre'', ''Noviembre'', ''Diciembre'']"

text \<open>The values of \<open>SALA_OPTIONS\<close>; the labels are presentation only.\<close>

definition SALA_OPTIONS :: "ustring list" where
  "SALA_OPTIONS =
     [lit ''0'', lit ''1'', lit ''2'', lit ''3'', lit ''4'', lit ''5'', lit ''6'',
      lit ''7'', lit ''8'', lit ''9'', lit ''10'', lit ''11'', lit ''12'', lit ''13'',
      lit ''14'', lit ''15'', lit ''16'', lit ''17'', lit ''18'', lit ''19'', lit ''20'']"

text \<open>
  \<open>toLowerCase\<close> on the letters A to Z, which covers every value of the month select;
  other code points are left as they are.
\<close>

definition toLowerCase :: "ustring \<Rightarrow> ustring" where
  "toLowerCase s = map (\<lambda>c. if 65 \<le> c \<and> c \<le> 90 then c + 32 else c) s"

record table_m =
  rows_m :: "row list"
  orderByField_m :: string
  order_m :: direction
  year_m :: ustring
  salaNum_m :: ustring
  expPrefix_m :: ustring
  monthFilter_m :: ustring
  cursorStack_m :: "snapshot list"
  nextCursor_m :: "snapshot option"
  loading_m :: bool
  err_m :: "ustring option"

definition initial_m :: table_m where
  "initial_m = \<lparr> rows_m = [], orderByField_m = ''year'', order_m = Desc, year_m = [],
     salaNum_m = [], expPrefix_m = [], monthFilter_m = [], cursorStack_m = [],
     nextCursor_m = None, loading_m = False, err_m = None \<rparr>"

definition constraints_m :: "table_m \<Rightarrow> queryConstraint list" where
  "constraints_m st =
     (if year_m st \<noteq> [] then [Where ''year'' Eq (Str (year_m st))] else [])
     @ (if salaNum_m st \<noteq> [] then [Where ''sala_num'' Eq (Number (salaNum_m st))] else [])
     @ (if monthFilter_m st \<noteq> [] then
          [Where ''month'' Eq (Str (toLowerCase (monthFilter_m st)))]
        else [])
     @ (if expPrefix_m st \<noteq> [] then
          [Where ''exp'' Ge (Str (expPrefix_m st)),
           Where ''exp'' Le (Str (expPrefix_m st @ sentinel))]
        else [])"

definition fetchOptions_m :: "table_m \<Rightarrow> snapshot option \<Rightarrow> pagedOptions" where
  "fetchOptions_m st startAfterSnapshot =
     (let obField = (if expPrefix_m st \<noteq> [] then ''exp'' else orderByField_m st)
      in \<lparr> opt_orderByField = Some obField, opt_order = Some (order_m st),
           opt_startAfterSnapshot = startAfterSnapshot,
           opt_constraints = Some (constraints_m st) \<rparr>)"

definition fetchQuery_m :: "table_m \<Rightarrow> snapshot option \<Rightarrow> query" where
  "fetchQuery_m st startAfterSnapshot =
     pagedQuery COLLECTION PAGE_SIZE (Some (fetchOptions_m st startAfterSnapshot))"

definition fetchPage_m :: "store \<Rightarrow> bool \<Rightarrow> snapshot option \<Rightarrow> table_m \<Rightarrow> table_m" where
  "fetchPage_m db reset startAfterSnapshot st =
     (let st1 = st\<lparr> loading_m := True, err_m := None \<rparr> in
      case getPaged db COLLECTION PAGE_SIZE (Some (fetchOptions_m st startAfterSnapshot)) of
        Inr (data, nc) \<Rightarrow>
          (let st2 = st1\<lparr> rows_m := data, nextCursor_m := nc \<rparr>;
               st3 = (if reset then
                        st2\<lparr> cursorStack_m :=
                              (case startAfterSnapshot of Some s \<Rightarrow> [s] | None \<Rightarrow> []) \<rparr>
                      else st2)
           in st3\<lparr> loading_m := False \<rparr>)
      | Inl e \<Rightarrow>
          (let message = (case e of ErrorInstance m \<Rightarrow> m | OtherValue \<Rightarrow> lit ''Error cargando datos'')
           in st1\<lparr> err_m := Some message, loading_m := False \<rparr>))"

definition onNext_m :: "store \<Rightarrow> table_m \<Rightarrow> table_m" where
  "onNext_m db st =
     (case nextCursor_m st of
        None \<Rightarrow> st
      | Some c \<Rightarrow> fetchPage_m db False (Some c) (st\<lparr> cursorStack_m := cursorStack_m st @ [c] \<rparr>))"

definition onPrev_m :: "store \<Rightarrow> table_m \<Rightarrow> table_m" where
  "onPrev_m db st =
     (let s = cursorStack_m st in
      if length s = 0 then st
      else
        (let newStack = butlast s;
             newStartAfter = (if newStack = [] then None else Some (last newStack))
         in fetchPage_m db False newStartAfter (st\<lparr> cursorStack_m := newStack \<rparr>)))"

text \<open>
  The controls: the year input, the month and sala selects, the direction toggle, the
  clear button of each badge, \<open>Limpiar todos\<close>, Anterior and Siguiente. No control sets
  \<open>expPrefix\<close> to a value.
\<close>

datatype event_m =
    ChangeYear_m ustring
  | ChangeMonth_m ustring
  | ChangeSala_m ustring
  | ToggleOrder_m
  | ClearYear_m
  | ClearMonth_m
  | ClearSala_m
  | ClearExp_m
  | ClearAll_m
  | ClickAnterior_m
  | ClickSiguiente_m

fun rendered_m :: "event_m \<Rightarrow> table_m \<Rightarrow> bool" where
  "rendered_m (ChangeMonth_m v) st = (v = [] \<or> v \<in> set MONTHS)"
| "rendered_m (ChangeSala_m v) st = (v = [] \<or> v \<in> set SALA_OPTIONS)"
| "rendered_m ClearYear_m st = (year_m st \<noteq> [])"
| "rendered_m ClearMonth_m st = (monthFilter_m st \<noteq> [])"
| "rendered_m ClearSala_m st = (salaNum_m st \<noteq> [])"
| "rendered_m ClearExp_m st = (expPrefix_m st \<noteq> [])"
| "rendered_m ClearAll_m st =
     (year_m st \<noteq> [] \<or> monthFilter_m st \<noteq> [] \<or> salaNum_m st \<noteq> [] \<or> expPrefix_m st \<noteq> [])"
| "rendered_m ClickAnterior_m st = (\<not> (\<not> length (cursorStack_m st) > 0 \<or> loading_m st))"
| "rendered_m ClickSiguiente_m st = (\<not> (nextCursor_m st = None \<or> loading_m st))"
| "rendered_m _ st = True"

fun handler_m :: "store \<Rightarrow> event_m \<Rightarrow> table_m \<Rightarrow> table_m" where
  "handler_m db (ChangeYear_m v) st = st\<lparr> year_m := v \<rparr>"
| "handler_m db (ChangeMonth_m v) st = st\<lparr> monthFilter_m := v \<rparr>"
| "handler_m db (ChangeSala_m v) st = st\<lparr> salaNum_m := v \<rparr>"
| "handler_m db ToggleOrder_m st = st\<lparr> order_m := (if order_m st = Asc then Desc else Asc) \<rparr>"
| "handler_m db ClearYear_m st = st\<lparr> year_m := [] \<rparr>"
| "handler_m db ClearMonth_m st = st\<lparr> monthFilter_m := [] \<rparr>"
| "handler_m db ClearSala_m st = st\<lparr> salaNum_m := [] \<rparr>"
| "handler_m db ClearExp_m st = st\<lparr> expPrefix_m := [] \<rparr>"
| "handler_m db ClearAll_m st =
     st\<lparr> year_m := [], monthFilter_m := [], salaNum_m := [], expPrefix_m := [] \<rparr>"
| "handler_m db ClickAnterior_m st = onPrev_m db st"
| "handler_m db ClickSiguiente_m st = onNext_m db st"

text \<open>
  The dependencies of the effect, \<open>[orderByField, order, constraints]\<close>: the ref object is
  the same on every render, \<open>constraints\<close> is memoised on the four filter inputs.
\<close>

definition effectDeps_m :: "table_m \<Rightarrow> direction \<times> ustring \<times> ustring \<times> ustring \<times> ustring" where
  "effectDeps_m st = (order_m st, year_m st, salaNum_m st, monthFilter_m st, expPrefix_m st)"

definition dispatch_m :: "store \<Rightarrow> event_m \<Rightarrow> table_m \<Rightarrow> table_m" where
  "dispatch_m db ev st =
     (let st' = handler_m db ev st
      in if effectDeps_m st' \<noteq> effectDeps_m st then fetchPage_m db True None st' else st')"

inductive reachable_m :: "table_m \<Rightarrow> bool" where
  mount_m: "reachable_m (fetchPage_m db True None initial_m)"
| event_m: "reachable_m st \<Longrightarrow> rendered_m ev st \<Longrightarrow> reachable_m (dispatch_m db ev st)"

definition filterInputs_m :: "table_m \<Rightarrow> ustring list" where
  "filterInputs_m st = [year_m st, salaNum_m st, expPrefix_m st]"

section \<open>The store's side\<close>

text \<open>
  How the store compares a stored string with the bound of a predicate. The store is
  outside the repository; its order on strings is taken to be the lexicographic order
  on code points, a proper prefix before its extensions.
\<close>

definition compareStr :: "whereOp \<Rightarrow> ustring \<Rightarrow> ustring \<Rightarrow> bool" where
  "compareStr oper stored bound =
     (case oper of Eq \<Rightarrow> stored = bound | Ge \<Rightarrow> bound \<le> stored | Le \<Rightarrow> stored \<le> bound)"

text \<open>A stored string value satisfies every string predicate of the list.\<close>

fun satisfiesAll :: "queryConstraint list \<Rightarrow> ustring \<Rightarrow> bool" where
  "satisfiesAll [] s = True"
| "satisfiesAll (Where f oper (Str bound) # cs) s = (compareStr oper s bound \<and> satisfiesAll cs s)"
| "satisfiesAll (_ # cs) s = satisfiesAll cs s"

text \<open>The predicates of a list that are on a given field, and the order-by fields of a query.\<close>

fun predicatesOn :: "string \<Rightarrow> queryConstraint list \<Rightarrow> queryConstraint list" where
  "predicatesOn f [] = []"
| "predicatesOn f (Where g oper v # cs) =
     (if g = f then Where g oper v # predicatesOn f cs else predicatesOn f cs)"
| "predicatesOn f (_ # cs) = predicatesOn f cs"

fun orderByFields :: "queryConstraint list \<Rightarrow> string list" where
  "orderByFields [] = []"
| "orderByFields (OrderBy f d # cs) = f # orderByFields cs"
| "orderByFields (_ # cs) = orderByFields cs"

fun limitOf :: "queryConstraint list \<Rightarrow> int option" where
  "limitOf [] = None"
| "limitOf (Limit n # cs) = Some n"
| "limitOf (_ # cs) = limitOf cs"

fun startAfterOf :: "queryConstraint list \<Rightarrow> snapshot option" where
  "startAfterOf [] = None"
| "startAfterOf (StartAfter d # cs) = Some d"
| "startAfterOf (_ # cs) = startAfterOf cs"

subsection \<open>Stores for the examples\<close>

text \<open>
  \<open>listStore docs\<close> answers every query from \<open>docs\<close>, taken to be the matching documents
  in query order: the documents after the start-after position, up to the limit.
  \<open>offline\<close> rejects every query with an \<open>Error\<close>, \<open>broken\<close> with a value that is no \<open>Error\<close>.
\<close>

definition docNo :: "nat \<Rightarrow> snapshot" where
  "docNo i = \<lparr> snap_id = [i], snap_data = [(''sala_num'', Number [i])] \<rparr>"

definition listStore :: "snapshot list \<Rightarrow> store" where
  "listStore docs q =
     (let rest = (case startAfterOf (snd q) of
                    None \<Rightarrow> docs
                  | Some c \<Rightarrow> tl (dropWhile (\<lambda>d. d \<noteq> c) docs))
      in case limitOf (snd q) of
           None \<Rightarrow> Inr rest
         | Some n \<Rightarrow> Inr (take (nat n) rest))"

definition offline :: store where
  "offline q = Inl (ErrorInstance (lit ''unavailable''))"

definition broken :: store where
  "broken q = Inl OtherValue"

text \<open>The input that belongs to a filter type.\<close>

definition inputOf :: "filterType \<Rightarrow> table \<Rightarrow> ustring" where
  "inputOf ft st = (case ft of Year \<Rightarrow> year st | Sala \<Rightarrow> salaNum st | Exp \<Rightarrow> expPrefix st)"

text \<open>Every filter input other than the one of the active filter type is empty.\<close>

definition filterInv :: "table \<Rightarrow> bool" where
  "filterInv st =
     ((activeFilterType st = Some Year \<or> year st = [])
      \<and> (activeFilterType st = Some Sala \<or> salaNum st = [])
      \<and> (activeFilterType st = Some Exp \<or> expPrefix st = []))"

text \<open>
  A collection of 120 documents, its first page as the component shows it after mounting,
  and the second page after one press of Siguiente.
\<close>

definition docs120 :: "snapshot list" where
  "docs120 = map docNo [0..<120]"

definition page1 :: table where
  "page1 = fetchPage (listStore docs120) True None initial"

definition page2 :: table where
  "page2 = onNext (listStore docs120) page1"

text \<open>
  The state still runs the query of \<open>st\<close>, and with an empty cursor stack it shows the
  first page \<open>docs\<close>.
\<close>

definition firstPageInv :: "table \<Rightarrow> snapshot list \<Rightarrow> table \<Rightarrow> bool" where
  "firstPageInv st docs s =
     (effectDeps s = effectDeps st \<and> (cursorStack s \<noteq> [] \<or> rows s = map withId docs))"

section \<open>Properties of getPaged\<close>

lemma getPaged_Inr:
  assumes "getPaged st c n opts = Inr (data, nc)"
  obtains docs where "st (pagedQuery c n opts) = Inr docs" and "data = map withId docs"
    and "nc = (if docs \<noteq> [] \<and> int (length docs) = n then Some (last docs) else None)"
proof (cases "st (pagedQuery c n opts)")
  case (Inl e)
  with assms show ?thesis by (simp add: getPaged_def)
next
  case (Inr docs)
  with assms have "data = map withId docs"
    and "nc = (if docs \<noteq> [] \<and> int (length docs) = n then Some (last docs) else None)"
    by (auto simp: getPaged_def Let_def last_conv_nth)
  with Inr that show ?thesis by blast
qed

text \<open>
  Claim C2. For every page \<open>getPaged\<close> returns, \<open>nextCursor\<close> is null if and only if the
  number of records returned is strictly less than \<open>pageSize\<close>. The page is one the store
  answered under \<open>limit(pageSize)\<close>: the limit is positive and the store returns at most
  that many documents.
\<close>

theorem getPaged_nextCursor_none_iff:
  assumes "getPaged db c pageSize opts = Inr (data, nc)"
    and "0 < pageSize"
    and "int (length data) \<le> pageSize"
  shows "nc = None \<longleftrightarrow> int (length data) < pageSize"
proof -
  from assms(1) obtain docs where d: "data = map withId docs"
    and n: "nc = (if docs \<noteq> [] \<and> int (length docs) = pageSize then Some (last docs) else None)"
    by (rule getPaged_Inr)
  show ?thesis
  proof (cases "int (length docs) = pageSize")
    case True
    with assms(2) have "docs \<noteq> []" by auto
    with True n d show ?thesis by simp
  next
    case False
    with assms(3) d n show ?thesis by simp
  qed
qed

theorem getPaged_nextCursor_none_iff_witness:
  "getPaged (listStore (map docNo [0..<3])) COLLECTION 2 None
     = Inr (map withId [docNo 0, docNo 1], Some (docNo 1))
   \<and> (0::int) < 2
   \<and> int (length (map withId [docNo 0, docNo 1])) \<le> 2
   \<and> ((Some (docNo 1) = None) = (int (length (map withId [docNo 0, docNo 1])) < 2))"
proof -
  have h1: "getPaged (listStore (map docNo [0..<3])) COLLECTION 2 None
     = Inr (map withId [docNo 0, docNo 1], Some (docNo 1))"
    by code_simp
  have h2: "(0::int) < 2" by simp
  have h3: "int (length (map withId [docNo 0, docNo 1])) \<le> 2" by simp
  from getPaged_nextCursor_none_iff [OF h1 h2 h3] h1 h2 h3 show ?thesis by blast
qed

text \<open>
  Claim C9. Whenever \<open>getPaged\<close> returns a non-null \<open>nextCursor\<close>, that cursor is the
  document snapshot of the last record of the page it returned, and the page holds
  exactly \<open>pageSize\<close> records.
\<close>

theorem getPaged_cursor_is_last:
  assumes "getPaged db c pageSize opts = Inr (data, Some cur)"
  shows "\<exists>docs. db (pagedQuery c pageSize opts) = Inr docs \<and> docs \<noteq> [] \<and> cur = last docs
           \<and> data = map withId docs \<and> withId cur = last data \<and> int (length data) = pageSize"
proof -
  from assms obtain docs where q: "db (pagedQuery c pageSize opts) = Inr docs"
    and d: "data = map withId docs"
    and n: "Some cur = (if docs \<noteq> [] \<and> int (length docs) = pageSize then Some (last docs) else None)"
    by (rule getPaged_Inr)
  from n have ne: "docs \<noteq> []" and len: "int (length docs) = pageSize" and c: "cur = last docs"
    by (auto split: if_splits)
  from ne d c have "withId cur = last data" by (simp add: last_map)
  with q d ne len c show ?thesis by auto
qed

theorem getPaged_cursor_is_last_witness:
  "getPaged (listStore (map docNo [0..<3])) COLLECTION 2 None
     = Inr (map withId [docNo 0, docNo 1], Some (docNo 1))
   \<and> (\<exists>docs. listStore (map docNo [0..<3]) (pagedQuery COLLECTION 2 None) = Inr docs
         \<and> docs \<noteq> [] \<and> docNo 1 = last docs
         \<and> map withId [docNo 0, docNo 1] = map withId docs
         \<and> withId (docNo 1) = last (map withId [docNo 0, docNo 1])
         \<and> int (length (map withId [docNo 0, docNo 1])) = 2)"
proof -
  have h1: "getPaged (listStore (map docNo [0..<3])) COLLECTION 2 None
     = Inr (map withId [docNo 0, docNo 1], Some (docNo 1))"
    by code_simp
  from getPaged_cursor_is_last [OF h1] h1 show ?thesis by blast
qed

section \<open>Properties of fetchPage\<close>

lemma getPaged_Inl:
  "db (pagedQuery c n opts) = Inl e \<Longrightarrow> getPaged db c n opts = Inl e"
  by (simp add: getPaged_def)

lemma fetchPage_failed:
  assumes "db (fetchQuery st sa) = Inl e"
  shows "fetchPage db reset sa st =
           st\<lparr> err := Some (case e of ErrorInstance m \<Rightarrow> m | OtherValue \<Rightarrow> lit ''Error cargando datos''),
               loading := False \<rparr>"
  using assms by (simp add: fetchPage_def fetchQuery_def getPaged_Inl Let_def)

lemma fetchPage_m_failed:
  assumes "db (fetchQuery_m st sa) = Inl e"
  shows "fetchPage_m db reset sa st =
           st\<lparr> err_m := Some (case e of ErrorInstance m \<Rightarrow> m | OtherValue \<Rightarrow> lit ''Error cargando datos''),
               loading_m := False \<rparr>"
  using assms by (simp add: fetchPage_m_def fetchQuery_m_def getPaged_Inl Let_def)

text \<open>The store is consulted once per call, on \<open>fetchQuery\<close>: nothing else of it matters.\<close>

lemma fetchPage_one_query:
  "db (fetchQuery st sa) = db' (fetchQuery st sa)
     \<Longrightarrow> fetchPage db reset sa st = fetchPage db' reset sa st"
  by (simp add: fetchPage_def fetchQuery_def getPaged_def)

lemma fetchPage_m_one_query:
  "db (fetchQuery_m st sa) = db' (fetchQuery_m st sa)
     \<Longrightarrow> fetchPage_m db reset sa st = fetchPage_m db' reset sa st"
  by (simp add: fetchPage_m_def fetchQuery_m_def getPaged_def)

text \<open>
  Claim C10. For every failed fetch, the error reason surfaced to the caller is the
  thrown \<open>Error\<close>'s message when the thrown value is an \<open>Error\<close> instance, and the fixed
  string "Error cargando datos" when it is not. Both components.
\<close>

theorem fetchPage_error_message:
  "(db (fetchQuery st sa) = Inl (ErrorInstance m) \<longrightarrow> err (fetchPage db reset sa st) = Some m)
   \<and> (db (fetchQuery st sa) = Inl OtherValue
        \<longrightarrow> err (fetchPage db reset sa st) = Some (lit ''Error cargando datos''))
   \<and> (db (fetchQuery_m st' sa) = Inl (ErrorInstance m)
        \<longrightarrow> err_m (fetchPage_m db reset sa st') = Some m)
   \<and> (db (fetchQuery_m st' sa) = Inl OtherValue
        \<longrightarrow> err_m (fetchPage_m db reset sa st') = Some (lit ''Error cargando datos''))"
  by (simp add: fetchPage_failed fetchPage_m_failed)

theorem fetchPage_error_message_witness:
  "offline (fetchQuery initial None) = Inl (ErrorInstance (lit ''unavailable''))
   \<and> err (fetchPage offline True None initial) = Some (lit ''unavailable'')
   \<and> offline (fetchQuery_m initial_m None) = Inl (ErrorInstance (lit ''unavailable''))
   \<and> err_m (fetchPage_m offline True None initial_m) = Some (lit ''unavailable'')
   \<and> broken (fetchQuery initial None) = Inl OtherValue
   \<and> err (fetchPage broken True None initial) = Some (lit ''Error cargando datos'')
   \<and> broken (fetchQuery_m initial_m None) = Inl OtherValue
   \<and> err_m (fetchPage_m broken True None initial_m) = Some (lit ''Error cargando datos'')"
proof -
  have a: "offline (fetchQuery initial None) = Inl (ErrorInstance (lit ''unavailable''))"
    and a': "offline (fetchQuery_m initial_m None) = Inl (ErrorInstance (lit ''unavailable''))"
    by (simp_all add: offline_def)
  have b: "broken (fetchQuery initial None) = Inl OtherValue"
    and b': "broken (fetchQuery_m initial_m None) = Inl OtherValue"
    by (simp_all add: broken_def)
  from a a' b b'
    fetchPage_error_message [of offline initial None "lit ''unavailable''" True initial_m]
    fetchPage_error_message [of broken initial None "lit ''unavailable''" True initial_m]
  show ?thesis by blast
qed

text \<open>
  Claim C4. Whenever the expediente prefix filter is active (its prefix is not empty), the
  query sent to the store orders by "expediente" (Table.tsx) or "exp" (part_000), whatever
  sort field is selected and whatever the start position is.
\<close>

theorem orderBy_pinned_under_prefix:
  "(activeFilterType st = Some Exp \<and> expPrefix st \<noteq> []
      \<longrightarrow> orderByFields (snd (fetchQuery st sa)) = [''expediente''])
   \<and> (expPrefix_m st' \<noteq> [] \<longrightarrow> orderByFields (snd (fetchQuery_m st' sa)) = [''exp''])"
  by (cases sa)
     (simp_all add: fetchQuery_def fetchQuery_m_def pagedQuery_def fetchOptions_def
       fetchOptions_m_def constraints_def constraints_m_def)

theorem orderBy_pinned_under_prefix_witness:
  "activeFilterType (initial\<lparr> activeFilterType := Some Exp, expPrefix := lit ''2009'' \<rparr>) = Some Exp
   \<and> expPrefix (initial\<lparr> activeFilterType := Some Exp, expPrefix := lit ''2009'' \<rparr>) \<noteq> []
   \<and> orderByFields (snd (fetchQuery (initial\<lparr> activeFilterType := Some Exp, expPrefix := lit ''2009'' \<rparr>)
         (Some (docNo 49)))) = [''expediente'']
   \<and> expPrefix_m (initial_m\<lparr> expPrefix_m := lit ''2009'' \<rparr>) \<noteq> []
   \<and> orderByFields (snd (fetchQuery_m (initial_m\<lparr> expPrefix_m := lit ''2009'' \<rparr>) (Some (docNo 49))))
       = [''exp'']"
proof -
  have a: "activeFilterType (initial\<lparr> activeFilterType := Some Exp, expPrefix := lit ''2009'' \<rparr>) = Some Exp"
    and b: "expPrefix (initial\<lparr> activeFilterType := Some Exp, expPrefix := lit ''2009'' \<rparr>) \<noteq> []"
    and c: "expPrefix_m (initial_m\<lparr> expPrefix_m := lit ''2009'' \<rparr>) \<noteq> []"
    by (simp_all add: initial_def initial_m_def lit_def)
  from a b c
    orderBy_pinned_under_prefix [of "initial\<lparr> activeFilterType := Some Exp, expPrefix := lit ''2009'' \<rparr>"
      "Some (docNo 49)" "initial_m\<lparr> expPrefix_m := lit ''2009'' \<rparr>"]
  show ?thesis by blast
qed

section \<open>Properties of the predicate list\<close>

text \<open>
  Claim C8. When the input of the active filter is the empty string, the predicate list
  is empty; with independent filters (part_000), a blank input contributes no predicate
  on its field, and all inputs blank give the empty list.
\<close>

theorem blank_input_no_predicates:
  "(activeFilterType st = Some ft \<and> inputOf ft st = [] \<longrightarrow> constraints st = [])
   \<and> (activeFilterType st = None \<longrightarrow> constraints st = [])
   \<and> (year_m st' = [] \<longrightarrow> predicatesOn ''year'' (constraints_m st') = [])
   \<and> (salaNum_m st' = [] \<longrightarrow> predicatesOn ''sala_num'' (constraints_m st') = [])
   \<and> (monthFilter_m st' = [] \<longrightarrow> predicatesOn ''month'' (constraints_m st') = [])
   \<and> (expPrefix_m st' = [] \<longrightarrow> predicatesOn ''exp'' (constraints_m st') = [])
   \<and> (year_m st' = [] \<and> salaNum_m st' = [] \<and> monthFilter_m st' = [] \<and> expPrefix_m st' = []
        \<longrightarrow> constraints_m st' = [])"
proof -
  have "activeFilterType st = Some ft \<Longrightarrow> inputOf ft st = [] \<Longrightarrow> constraints st = []"
    by (cases ft) (simp_all add: inputOf_def constraints_def)
  moreover have "activeFilterType st = None \<Longrightarrow> constraints st = []"
    by (simp add: constraints_def)
  moreover have "year_m st' = [] \<Longrightarrow> predicatesOn ''year'' (constraints_m st') = []"
    and "salaNum_m st' = [] \<Longrightarrow> predicatesOn ''sala_num'' (constraints_m st') = []"
    and "monthFilter_m st' = [] \<Longrightarrow> predicatesOn ''month'' (constraints_m st') = []"
    and "expPrefix_m st' = [] \<Longrightarrow> predicatesOn ''exp'' (constraints_m st') = []"
    by (simp_all add: constraints_m_def)
  moreover have "year_m st' = [] \<and> salaNum_m st' = [] \<and> monthFilter_m st' = [] \<and> expPrefix_m st' = []
      \<Longrightarrow> constraints_m st' = []"
    by (simp add: constraints_m_def)
  ultimately show ?thesis by blast
qed

theorem blank_input_no_predicates_witness:
  "activeFilterType (initial\<lparr> activeFilterType := Some Exp \<rparr>) = Some Exp
   \<and> inputOf Exp (initial\<lparr> activeFilterType := Some Exp \<rparr>) = []
   \<and> constraints (initial\<lparr> activeFilterType := Some Exp \<rparr>) = []
   \<and> year_m (initial_m\<lparr> salaNum_m := lit ''2'' \<rparr>) = []
   \<and> predicatesOn ''year'' (constraints_m (initial_m\<lparr> salaNum_m := lit ''2'' \<rparr>)) = []
   \<and> constraints_m (initial_m\<lparr> salaNum_m := lit ''2'' \<rparr>) = [Where ''sala_num'' Eq (Number (lit ''2''))]
   \<and> constraints_m initial_m = []"
proof -
  have a: "activeFilterType (initial\<lparr> activeFilterType := Some Exp \<rparr>) = Some Exp"
    and b: "inputOf Exp (initial\<lparr> activeFilterType := Some Exp \<rparr>) = []"
    by (simp_all add: initial_def inputOf_def)
  have c: "year_m (initial_m\<lparr> salaNum_m := lit ''2'' \<rparr>) = []"
    by (simp add: initial_m_def)
  have d: "constraints_m (initial_m\<lparr> salaNum_m := lit ''2'' \<rparr>) = [Where ''sala_num'' Eq (Number (lit ''2''))]"
    by (simp add: initial_m_def constraints_m_def lit_def)
  have e: "year_m initial_m = [] \<and> salaNum_m initial_m = [] \<and> monthFilter_m initial_m = []
      \<and> expPrefix_m initial_m = []"
    by (simp add: initial_m_def)
  from a b c d e
    blank_input_no_predicates [of "initial\<lparr> activeFilterType := Some Exp \<rparr>" Exp
      "initial_m\<lparr> salaNum_m := lit ''2'' \<rparr>"]
    blank_input_no_predicates [of initial Exp initial_m]
  show ?thesis by blast
qed

lemma append_le_append: "(p @ t \<le> p @ u) = (t \<le> (u::nat list))"
  by (induction p) simp_all

lemma between_has_prefix:
  "(p::nat list) \<le> s \<Longrightarrow> s \<le> p @ u \<Longrightarrow> \<exists>t. s = p @ t"
proof (induction p arbitrary: s)
  case Nil
  then show ?case by simp
next
  case (Cons a p)
  then obtain b s' where s: "s = b # s'" by (cases s) auto
  with Cons.prems have "a = b" and "p \<le> s'" and "s' \<le> p @ u" by auto
  with Cons.IH s show ?case by auto
qed

lemma le_sentinel: "(t \<le> sentinel) = (t = [] \<or> hd t < 0xF8FF \<or> t = sentinel)"
  by (cases t) (auto simp: sentinel_def)

text \<open>
  Claim C7, as amended. For a non-empty prefix \<open>p\<close> the builder emits exactly the two
  predicates \<open>f >= p\<close> and \<open>f <= p + U+F8FF\<close> on the expediente field, and a stored string
  satisfies both exactly when it is \<open>p\<close> followed by nothing, by a string whose first code
  point is below U+F8FF, or by U+F8FF alone.
\<close>

theorem prefix_range_predicates:
  "(activeFilterType st = Some Exp \<and> expPrefix st = p \<and> p \<noteq> []
      \<longrightarrow> constraints st =
            [Where ''expediente'' Ge (Str p), Where ''expediente'' Le (Str (p @ sentinel))])
   \<and> (expPrefix_m st' = p \<and> p \<noteq> []
      \<longrightarrow> predicatesOn ''exp'' (constraints_m st') =
            [Where ''exp'' Ge (Str p), Where ''exp'' Le (Str (p @ sentinel))])
   \<and> (satisfiesAll [Where f Ge (Str p), Where f Le (Str (p @ sentinel))] s
        = (\<exists>t. s = p @ t \<and> (t = [] \<or> hd t < 0xF8FF \<or> t = sentinel)))"
proof -
  have "satisfiesAll [Where f Ge (Str p), Where f Le (Str (p @ sentinel))] s
          = (p \<le> s \<and> s \<le> p @ sentinel)"
    by (simp add: compareStr_def)
  also have "\<dots> = (\<exists>t. s = p @ t \<and> t \<le> sentinel)"
  proof
    assume h: "p \<le> s \<and> s \<le> p @ sentinel"
    then obtain t where "s = p @ t" using between_has_prefix by blast
    with h show "\<exists>t. s = p @ t \<and> t \<le> sentinel" by (auto simp: append_le_append)
  next
    assume "\<exists>t. s = p @ t \<and> t \<le> sentinel"
    then obtain t where t: "s = p @ t" "t \<le> sentinel" by blast
    have "p @ [] \<le> p @ t" unfolding append_le_append by simp
    with t show "p \<le> s \<and> s \<le> p @ sentinel" by (simp add: append_le_append)
  qed
  finally have r: "satisfiesAll [Where f Ge (Str p), Where f Le (Str (p @ sentinel))] s
        = (\<exists>t. s = p @ t \<and> (t = [] \<or> hd t < 0xF8FF \<or> t = sentinel))"
    by (simp add: le_sentinel)
  have a: "activeFilterType st = Some Exp \<and> expPrefix st = p \<and> p \<noteq> []
      \<longrightarrow> constraints st =
            [Where ''expediente'' Ge (Str p), Where ''expediente'' Le (Str (p @ sentinel))]"
    by (simp add: constraints_def)
  have b: "expPrefix_m st' = p \<and> p \<noteq> []
      \<longrightarrow> predicatesOn ''exp'' (constraints_m st') =
            [Where ''exp'' Ge (Str p), Where ''exp'' Le (Str (p @ sentinel))]"
    by (simp add: constraints_m_def)
  from a b r show ?thesis by blast
qed

theorem prefix_range_predicates_witness:
  "activeFilterType (initial\<lparr> activeFilterType := Some Exp, expPrefix := lit ''A'' \<rparr>) = Some Exp
   \<and> expPrefix (initial\<lparr> activeFilterType := Some Exp, expPrefix := lit ''A'' \<rparr>) = lit ''A''
   \<and> lit ''A'' \<noteq> []
   \<and> constraints (initial\<lparr> activeFilterType := Some Exp, expPrefix := lit ''A'' \<rparr>) =
        [Where ''expediente'' Ge (Str (lit ''A'')), Where ''expediente'' Le (Str (lit ''A'' @ sentinel))]
   \<and> expPrefix_m (initial_m\<lparr> year_m := lit ''2009'', expPrefix_m := lit ''A'' \<rparr>) = lit ''A''
   \<and> predicatesOn ''exp'' (constraints_m (initial_m\<lparr> year_m := lit ''2009'', expPrefix_m := lit ''A'' \<rparr>)) =
        [Where ''exp'' Ge (Str (lit ''A'')), Where ''exp'' Le (Str (lit ''A'' @ sentinel))]
   \<and> satisfiesAll [Where ''exp'' Ge (Str (lit ''A'')), Where ''exp'' Le (Str (lit ''A'' @ sentinel))]
        (lit ''AA-1'')"
proof -
  have a: "activeFilterType (initial\<lparr> activeFilterType := Some Exp, expPrefix := lit ''A'' \<rparr>) = Some Exp"
    and b: "expPrefix (initial\<lparr> activeFilterType := Some Exp, expPrefix := lit ''A'' \<rparr>) = lit ''A''"
    and c: "lit ''A'' \<noteq> []"
    and d: "expPrefix_m (initial_m\<lparr> year_m := lit ''2009'', expPrefix_m := lit ''A'' \<rparr>) = lit ''A''"
    by (simp_all add: initial_def initial_m_def lit_def)
  have e: "\<exists>t. lit ''AA-1'' = lit ''A'' @ t \<and> (t = [] \<or> hd t < 0xF8FF \<or> t = sentinel)"
    by (rule exI [of _ "lit ''A-1''"]) (simp add: lit_def)
  from a b c d e
    prefix_range_predicates [of "initial\<lparr> activeFilterType := Some Exp, expPrefix := lit ''A'' \<rparr>"
      "lit ''A''" "initial_m\<lparr> year_m := lit ''2009'', expPrefix_m := lit ''A'' \<rparr>" "''exp''"
      "lit ''AA-1''"]
  show ?thesis by blast
qed

text \<open>
  Claim C7 as first stated fails: "A" followed by U+F8FF and "a" begins with the prefix
  "A" and lies above the upper bound.
\<close>

theorem sentinel_not_above_every_extension:
  "lit ''A'' @ [0xF8FF, 0x61] = expPrefix (initial\<lparr> activeFilterType := Some Exp, expPrefix := lit ''A'' \<rparr>) @ [0xF8FF, 0x61]
   \<and> \<not> satisfiesAll (constraints (initial\<lparr> activeFilterType := Some Exp, expPrefix := lit ''A'' \<rparr>))
         (lit ''A'' @ [0xF8FF, 0x61])"
  by (simp add: initial_def constraints_def lit_def sentinel_def compareStr_def)

section \<open>The filter inputs\<close>

lemma fetchPage_effectDeps: "effectDeps (fetchPage db r sa st) = effectDeps st"
  by (simp add: fetchPage_def effectDeps_def Let_def split: sum.splits prod.splits)

lemma onNext_effectDeps: "effectDeps (onNext db st) = effectDeps st"
  by (simp add: onNext_def fetchPage_effectDeps split: option.splits)
     (simp add: effectDeps_def)

lemma onPrev_effectDeps: "effectDeps (onPrev db st) = effectDeps st"
  by (simp add: onPrev_def Let_def fetchPage_effectDeps)
     (simp add: effectDeps_def)

lemma filterInv_effectDeps: "effectDeps st' = effectDeps st \<Longrightarrow> filterInv st' = filterInv st"
  by (simp add: effectDeps_def filterInv_def)

lemma filterInv_handler:
  assumes "filterInv st" and "rendered ev st"
  shows "filterInv (handler db ev st)"
proof (cases ev)
  case ClickAplicar
  with assms show ?thesis using filterInv_effectDeps [OF fetchPage_effectDeps] by simp
next
  case ClickAnterior
  with assms show ?thesis using filterInv_effectDeps [OF onPrev_effectDeps] by simp
next
  case ClickSiguiente
  with assms show ?thesis using filterInv_effectDeps [OF onNext_effectDeps] by simp
qed (use assms in \<open>auto simp: filterInv_def\<close>)

lemma filterInv_dispatch: "filterInv st \<Longrightarrow> rendered ev st \<Longrightarrow> filterInv (dispatch db ev st)"
  using filterInv_handler [of st ev db] filterInv_effectDeps [OF fetchPage_effectDeps]
  by (simp add: dispatch_def Let_def)

lemma reachable_filterInv: "reachable st \<Longrightarrow> filterInv st"
proof (induction rule: reachable.induct)
  case (mount db)
  have "filterInv initial" by (simp add: filterInv_def initial_def)
  then show ?case using filterInv_effectDeps [OF fetchPage_effectDeps] by simp
next
  case (event st ev db)
  then show ?case by (simp add: filterInv_dispatch)
qed

lemma dispatch_filter_fields:
  "effectDeps (dispatch db ev st) = effectDeps (handler db ev st)"
  by (simp add: dispatch_def Let_def fetchPage_effectDeps)

text \<open>
  Claim C3, as amended. In every reachable state of the Table.tsx component at most one
  of the inputs year, sala number and expediente prefix is non-empty, and pressing a
  filter button clears the inputs of the other filters.
\<close>

theorem filter_exclusive:
  assumes "reachable st"
  shows "atMostOneNonEmpty (filterInputs st)
    \<and> salaNum (dispatch db ClickAnio st) = [] \<and> expPrefix (dispatch db ClickAnio st) = []
    \<and> year (dispatch db ClickSala st) = [] \<and> expPrefix (dispatch db ClickSala st) = []
    \<and> year (dispatch db ClickExpediente st) = [] \<and> salaNum (dispatch db ClickExpediente st) = []
    \<and> filterInputs (dispatch db ClickSinFiltro st) = [[], [], []]"
proof -
  from assms have "filterInv st" by (rule reachable_filterInv)
  then have one: "atMostOneNonEmpty (filterInputs st)"
    by (cases "activeFilterType st")
       (auto simp: filterInv_def atMostOneNonEmpty_def filterInputs_def)
  have "\<And>ev. effectDeps (dispatch db ev st) = effectDeps (handler db ev st)"
    by (rule dispatch_filter_fields)
  from this [of ClickAnio] this [of ClickSala] this [of ClickExpediente] this [of ClickSinFiltro]
  have "salaNum (dispatch db ClickAnio st) = [] \<and> expPrefix (dispatch db ClickAnio st) = []"
    and "year (dispatch db ClickSala st) = [] \<and> expPrefix (dispatch db ClickSala st) = []"
    and "year (dispatch db ClickExpediente st) = [] \<and> salaNum (dispatch db ClickExpediente st) = []"
    and "filterInputs (dispatch db ClickSinFiltro st) = [[], [], []]"
    by (simp_all add: effectDeps_def filterInputs_def)
  with one show ?thesis by simp
qed

theorem filter_exclusive_witness:
  "reachable (dispatch offline (ChangeYear (lit ''2009'')) (dispatch offline ClickAnio
      (fetchPage offline True None initial)))
   \<and> atMostOneNonEmpty (filterInputs (dispatch offline (ChangeYear (lit ''2009''))
        (dispatch offline ClickAnio (fetchPage offline True None initial))))
   \<and> year (dispatch offline (ChangeYear (lit ''2009'')) (dispatch offline ClickAnio
        (fetchPage offline True None initial))) = lit ''2009''
   \<and> year (dispatch offline ClickSala (dispatch offline (ChangeYear (lit ''2009''))
        (dispatch offline ClickAnio (fetchPage offline True None initial)))) = []"
proof -
  let ?s1 = "dispatch offline ClickAnio (fetchPage offline True None initial)"
  let ?s2 = "dispatch offline (ChangeYear (lit ''2009'')) ?s1"
  have r1: "reachable ?s1" by (rule reachable.event [OF reachable.mount]) simp
  have "activeFilterType ?s1 = Some Year" by code_simp
  then have r2: "reachable ?s2" by (intro reachable.event [OF r1]) simp
  have y: "year ?s2 = lit ''2009''" by code_simp
  from r2 y filter_exclusive [OF r2, of offline] show ?thesis by simp
qed

text \<open>
  Claim C3 as first stated fails for the component of part_000, whose filters combine:
  typing a year and then choosing a sala leaves both inputs non-empty.
\<close>

theorem combinable_filters_not_exclusive:
  "reachable_m (dispatch_m offline (ChangeSala_m (lit ''2'')) (dispatch_m offline
      (ChangeYear_m (lit ''2009'')) (fetchPage_m offline True None initial_m)))
   \<and> \<not> atMostOneNonEmpty (filterInputs_m (dispatch_m offline (ChangeSala_m (lit ''2''))
        (dispatch_m offline (ChangeYear_m (lit ''2009'')) (fetchPage_m offline True None initial_m))))"
proof -
  let ?s1 = "dispatch_m offline (ChangeYear_m (lit ''2009'')) (fetchPage_m offline True None initial_m)"
  let ?s2 = "dispatch_m offline (ChangeSala_m (lit ''2'')) ?s1"
  have r1: "reachable_m ?s1" by (rule reachable_m.event_m [OF reachable_m.mount_m]) simp
  have "lit ''2'' \<in> set SALA_OPTIONS" by (simp add: SALA_OPTIONS_def lit_def)
  then have r2: "reachable_m ?s2" by (intro reachable_m.event_m [OF r1]) simp
  have "\<not> atMostOneNonEmpty (filterInputs_m ?s2)" by code_simp
  with r2 show ?thesis by simp
qed

section \<open>Paging forward and back\<close>

lemma fetchQuery_effectDeps:
  "effectDeps s = effectDeps st \<Longrightarrow> fetchQuery s sa = fetchQuery st sa"
  by (simp add: effectDeps_def fetchQuery_def fetchOptions_def constraints_def)

lemma fetchPage_succeeded:
  assumes "db (fetchQuery st sa) = Inr docs"
  shows "rows (fetchPage db reset sa st) = map withId docs"
    and "cursorStack (fetchPage db reset sa st) =
           (if reset then (case sa of Some s \<Rightarrow> [s] | None \<Rightarrow> []) else cursorStack st)"
  using assms by (simp_all add: fetchPage_def fetchQuery_def getPaged_def Let_def)

lemma fetchPage_keeps_stack: "cursorStack (fetchPage db False sa st) = cursorStack st"
  by (simp add: fetchPage_def Let_def split: sum.splits prod.splits)

lemma onPrev_stack: "length (cursorStack (onPrev db s)) = length (cursorStack s) - 1"
  by (simp add: onPrev_def Let_def fetchPage_keeps_stack)

lemma onNext_stack: "length (cursorStack (onNext db s)) \<le> Suc (length (cursorStack s))"
  by (simp add: onNext_def fetchPage_keeps_stack split: option.splits)

lemma onNext_funpow_stack:
  "length (cursorStack ((onNext db ^^ n) s)) \<le> n + length (cursorStack s)"
proof (induction n)
  case 0
  show ?case by simp
next
  case (Suc n)
  have "length (cursorStack (onNext db ((onNext db ^^ n) s)))
          \<le> Suc (length (cursorStack ((onNext db ^^ n) s)))"
    by (rule onNext_stack)
  with Suc show ?case by simp
qed

lemma onPrev_funpow_stack:
  "length (cursorStack ((onPrev db ^^ n) s)) = length (cursorStack s) - n"
  by (induction n) (simp_all add: onPrev_stack)

lemma firstPageInv_onNext:
  assumes "firstPageInv st docs s"
  shows "firstPageInv st docs (onNext db s)"
proof (cases "nextCursor s")
  case None
  with assms show ?thesis by (simp add: onNext_def)
next
  case (Some c)
  then have "cursorStack (onNext db s) \<noteq> []"
    by (simp add: onNext_def fetchPage_keeps_stack)
  with assms show ?thesis by (simp add: firstPageInv_def onNext_effectDeps)
qed

lemma firstPageInv_onPrev:
  assumes q: "db (fetchQuery st None) = Inr docs" and inv: "firstPageInv st docs s"
  shows "firstPageInv st docs (onPrev db s)"
proof (cases "cursorStack s = []")
  case True
  with inv show ?thesis by (simp add: onPrev_def)
next
  case False
  show ?thesis
  proof (cases "butlast (cursorStack s) = []")
    case True
    let ?s' = "s\<lparr> cursorStack := butlast (cursorStack s) \<rparr>"
    from False True have p: "onPrev db s = fetchPage db False None ?s'"
      by (simp add: onPrev_def Let_def)
    from inv have "effectDeps ?s' = effectDeps st" by (simp add: firstPageInv_def effectDeps_def)
    then have "fetchQuery ?s' None = fetchQuery st None" by (rule fetchQuery_effectDeps)
    with q have "db (fetchQuery ?s' None) = Inr docs" by simp
    then have "rows (fetchPage db False None ?s') = map withId docs"
      by (rule fetchPage_succeeded)
    moreover from inv have "effectDeps (onPrev db s) = effectDeps st"
      by (simp add: firstPageInv_def onPrev_effectDeps)
    ultimately show ?thesis using p by (simp add: firstPageInv_def)
  next
    case nonempty: False
    with False have "cursorStack (onPrev db s) \<noteq> []"
      by (simp add: onPrev_def Let_def fetchPage_keeps_stack)
    with inv show ?thesis by (simp add: firstPageInv_def onPrev_effectDeps)
  qed
qed

lemma firstPageInv_funpow_onNext:
  "firstPageInv st docs s \<Longrightarrow> firstPageInv st docs ((onNext db ^^ n) s)"
  by (induction n) (simp_all add: firstPageInv_onNext)

lemma firstPageInv_funpow_onPrev:
  "db (fetchQuery st None) = Inr docs \<Longrightarrow> firstPageInv st docs s
     \<Longrightarrow> firstPageInv st docs ((onPrev db ^^ n) s)"
  by (induction n) (simp_all add: firstPageInv_onPrev)

text \<open>
  Claim C5. From the first page, any number of \<open>onNext\<close> calls followed by the same number
  of \<open>onPrev\<close> calls shows the records of the first page again, the store answering each
  query the same way throughout.
\<close>

theorem previous_undoes_next:
  assumes "db (fetchQuery st None) = Inr docs"
  shows "rows (fetchPage db True None st) = map withId docs
    \<and> rows ((onPrev db ^^ n) ((onNext db ^^ n) (fetchPage db True None st)))
        = rows (fetchPage db True None st)
    \<and> cursorStack ((onPrev db ^^ n) ((onNext db ^^ n) (fetchPage db True None st))) = []"
proof -
  let ?first = "fetchPage db True None st"
  let ?far = "(onNext db ^^ n) ?first"
  let ?home = "(onPrev db ^^ n) ?far"
  from assms have r: "rows ?first = map withId docs" and c: "cursorStack ?first = []"
    by (simp_all add: fetchPage_succeeded)
  then have "firstPageInv st docs ?first" by (simp add: firstPageInv_def fetchPage_effectDeps)
  then have "firstPageInv st docs ?far" by (rule firstPageInv_funpow_onNext)
  with assms have inv: "firstPageInv st docs ?home" by (rule firstPageInv_funpow_onPrev)
  have "length (cursorStack ?far) \<le> n" using onNext_funpow_stack [where db = db and n = n and s = "?first"] c by simp
  then have e: "cursorStack ?home = []" using onPrev_funpow_stack [where db = db and n = n and s = "?far"] by simp
  with inv have "rows ?home = map withId docs" by (simp add: firstPageInv_def)
  with r e show ?thesis by simp
qed

theorem previous_undoes_next_witness:
  "listStore docs120 (fetchQuery initial None) = Inr (take 50 docs120)
   \<and> rows page1 = map withId (take 50 docs120)
   \<and> cursorStack ((onNext (listStore docs120) ^^ 2) page1) = [docNo 49, docNo 99]
   \<and> rows ((onNext (listStore docs120) ^^ 2) page1) = map withId (drop 100 docs120)
   \<and> rows ((onPrev (listStore docs120) ^^ 2) ((onNext (listStore docs120) ^^ 2) page1)) = rows page1
   \<and> cursorStack ((onPrev (listStore docs120) ^^ 2) ((onNext (listStore docs120) ^^ 2) page1)) = []"
proof -
  have q: "listStore docs120 (fetchQuery initial None) = Inr (take 50 docs120)"
    by code_simp
  have s: "cursorStack ((onNext (listStore docs120) ^^ 2) page1) = [docNo 49, docNo 99]"
    by code_simp
  have r: "rows ((onNext (listStore docs120) ^^ 2) page1) = map withId (drop 100 docs120)"
    by code_simp
  from q s r
    previous_undoes_next [where db = "listStore docs120" and st = initial
      and docs = "take 50 docs120" and n = 2]
  show ?thesis by (simp add: page1_def)
qed

section \<open>Reset when the query changes\<close>

lemma fetchPage_m_succeeded:
  assumes "db (fetchQuery_m st sa) = Inr docs"
  shows "rows_m (fetchPage_m db reset sa st) = map withId docs"
    and "cursorStack_m (fetchPage_m db reset sa st) =
           (if reset then (case sa of Some s \<Rightarrow> [s] | None \<Rightarrow> []) else cursorStack_m st)"
  using assms by (simp_all add: fetchPage_m_def fetchQuery_m_def getPaged_def Let_def)

lemma fetchQuery_limit:
  "limitOf (snd (fetchQuery st sa)) = Some 50"
  by (simp add: fetchQuery_def pagedQuery_def fetchOptions_def constraints_def PAGE_SIZE_def)

lemma fetchQuery_m_limit:
  "limitOf (snd (fetchQuery_m st sa)) = Some 50"
  by (simp add: fetchQuery_m_def pagedQuery_def fetchOptions_m_def constraints_m_def PAGE_SIZE_def)

lemma fetchQuery_no_start:
  "startAfterOf (snd (fetchQuery st None)) = None"
  by (simp add: fetchQuery_def pagedQuery_def fetchOptions_def constraints_def)

lemma fetchQuery_m_no_start:
  "startAfterOf (snd (fetchQuery_m st None)) = None"
  by (simp add: fetchQuery_m_def pagedQuery_def fetchOptions_m_def constraints_m_def)

text \<open>
  Claim C6, as amended. Whenever an event changes the filter inputs, the filter type or
  the sort direction, the component issues \<open>fetchPage(true)\<close>: a query with no start-after
  position; when the store answers it, the cursor stack is emptied and the rows are the
  first page of the new query. The page size is the constant 50 in every query.
\<close>

theorem reset_on_change:
  "(effectDeps (handler db ev st) \<noteq> effectDeps st \<longrightarrow>
      dispatch db ev st = fetchPage db True None (handler db ev st)
      \<and> startAfterOf (snd (fetchQuery (handler db ev st) None)) = None
      \<and> (db (fetchQuery (handler db ev st) None) = Inr docs \<longrightarrow>
           cursorStack (dispatch db ev st) = [] \<and> rows (dispatch db ev st) = map withId docs))
   \<and> (effectDeps_m (handler_m db ev' st') \<noteq> effectDeps_m st' \<longrightarrow>
      dispatch_m db ev' st' = fetchPage_m db True None (handler_m db ev' st')
      \<and> startAfterOf (snd (fetchQuery_m (handler_m db ev' st') None)) = None
      \<and> (db (fetchQuery_m (handler_m db ev' st') None) = Inr docs' \<longrightarrow>
           cursorStack_m (dispatch_m db ev' st') = []
           \<and> rows_m (dispatch_m db ev' st') = map withId docs'))
   \<and> limitOf (snd (fetchQuery st sa)) = Some 50
   \<and> limitOf (snd (fetchQuery_m st' sa)) = Some 50"
proof -
  have a: "effectDeps (handler db ev st) \<noteq> effectDeps st \<Longrightarrow>
      dispatch db ev st = fetchPage db True None (handler db ev st)"
    by (simp add: dispatch_def Let_def)
  have b: "effectDeps_m (handler_m db ev' st') \<noteq> effectDeps_m st' \<Longrightarrow>
      dispatch_m db ev' st' = fetchPage_m db True None (handler_m db ev' st')"
    by (simp add: dispatch_m_def Let_def)
  have c: "db (fetchQuery (handler db ev st) None) = Inr docs \<Longrightarrow>
      cursorStack (fetchPage db True None (handler db ev st)) = []
      \<and> rows (fetchPage db True None (handler db ev st)) = map withId docs"
    by (simp add: fetchPage_succeeded)
  have d: "db (fetchQuery_m (handler_m db ev' st') None) = Inr docs' \<Longrightarrow>
      cursorStack_m (fetchPage_m db True None (handler_m db ev' st')) = []
      \<and> rows_m (fetchPage_m db True None (handler_m db ev' st')) = map withId docs'"
    by (simp add: fetchPage_m_succeeded)
  from a b c d show ?thesis
    by (simp add: fetchQuery_limit fetchQuery_m_limit fetchQuery_no_start fetchQuery_m_no_start)
qed

theorem reset_on_change_witness:
  "effectDeps (handler (listStore docs120) (ChangeOrder Asc) page2) \<noteq> effectDeps page2
   \<and> listStore docs120 (fetchQuery (handler (listStore docs120) (ChangeOrder Asc) page2) None)
       = Inr (take 50 docs120)
   \<and> cursorStack page2 = [docNo 49]
   \<and> cursorStack (dispatch (listStore docs120) (ChangeOrder Asc) page2) = []
   \<and> rows (dispatch (listStore docs120) (ChangeOrder Asc) page2) = map withId (take 50 docs120)
   \<and> effectDeps_m (handler_m (listStore docs120) (ChangeYear_m (lit ''2009'')) initial_m)
       \<noteq> effectDeps_m initial_m
   \<and> listStore docs120 (fetchQuery_m (handler_m (listStore docs120) (ChangeYear_m (lit ''2009'')) initial_m) None)
       = Inr (take 50 docs120)
   \<and> cursorStack_m (dispatch_m (listStore docs120) (ChangeYear_m (lit ''2009'')) initial_m) = []
   \<and> rows_m (dispatch_m (listStore docs120) (ChangeYear_m (lit ''2009'')) initial_m)
       = map withId (take 50 docs120)"
proof -
  have a: "effectDeps (handler (listStore docs120) (ChangeOrder Asc) page2) \<noteq> effectDeps page2"
    by code_simp
  have b: "listStore docs120 (fetchQuery (handler (listStore docs120) (ChangeOrder Asc) page2) None)
       = Inr (take 50 docs120)"
    by code_simp
  have c: "cursorStack page2 = [docNo 49]"
    by code_simp
  have d: "effectDeps_m (handler_m (listStore docs120) (ChangeYear_m (lit ''2009'')) initial_m)
       \<noteq> effectDeps_m initial_m"
    by code_simp
  have e: "listStore docs120 (fetchQuery_m (handler_m (listStore docs120) (ChangeYear_m (lit ''2009'')) initial_m) None)
       = Inr (take 50 docs120)"
    by code_simp
  from a b c d e
    reset_on_change [where db = "listStore docs120" and ev = "ChangeOrder Asc" and st = page2
      and docs = "take 50 docs120" and ev' = "ChangeYear_m (lit ''2009'')" and st' = initial_m
      and docs' = "take 50 docs120"]
  show ?thesis by blast
qed

text \<open>
  Claim C6 as first stated fails when the store rejects the query: on page 2, changing
  the direction while the store is unreachable leaves the cursor of page 2 on the stack.
\<close>

theorem failed_reset_keeps_stack:
  "reachable page2
   \<and> effectDeps (handler offline (ChangeOrder Asc) page2) \<noteq> effectDeps page2
   \<and> cursorStack (dispatch offline (ChangeOrder Asc) page2) = [docNo 49]"
proof -
  have "rendered ClickSiguiente page1" by code_simp
  moreover have "reachable page1" unfolding page1_def by (rule reachable.mount)
  ultimately have "reachable (dispatch (listStore docs120) ClickSiguiente page1)"
    by (rule reachable.event [rotated])
  moreover have "dispatch (listStore docs120) ClickSiguiente page1 = page2"
    by (simp add: dispatch_def page2_def Let_def onNext_effectDeps)
  ultimately have "reachable page2" by simp
  moreover have "effectDeps (handler offline (ChangeOrder Asc) page2) \<noteq> effectDeps page2"
    by code_simp
  moreover have "cursorStack (dispatch offline (ChangeOrder Asc) page2) = [docNo 49]"
    by code_simp
  ultimately show ?thesis by simp
qed

section \<open>Failed fetches\<close>

text \<open>
  Claim C1. A failed fetch is to leave \<open>cursorStack\<close>, \<open>rows\<close> and \<open>nextCursor\<close> as they were.
  \<open>onNext\<close> pushes and \<open>onPrev\<close> pops before the fetch, so a failed fetch leaves the stack
  changed while the rows stay: on page 1, a failed Siguiente leaves one cursor on the
  stack and a second failed one leaves two; on page 2, a failed Anterior empties the
  stack. Only the reset path keeps the stack.
\<close>

theorem failed_navigation_changes_stack:
  "nextCursor page1 = Some (docNo 49)
   \<and> cursorStack page1 = []
   \<and> offline (fetchQuery page1 (Some (docNo 49))) = Inl (ErrorInstance (lit ''unavailable''))
   \<and> cursorStack (onNext offline page1) = [docNo 49]
   \<and> rows (onNext offline page1) = rows page1
   \<and> nextCursor (onNext offline page1) = nextCursor page1
   \<and> cursorStack (onNext offline (onNext offline page1)) = [docNo 49, docNo 49]
   \<and> cursorStack page2 = [docNo 49]
   \<and> cursorStack (onPrev offline page2) = []
   \<and> rows (onPrev offline page2) = rows page2
   \<and> cursorStack (fetchPage offline True None page2) = cursorStack page2"
  by code_simp

end
